theory Spec2Isabelle
  imports Complex_Main
begin

section \<open>Data model of \<open>app/(tabs)/map.tsx\<close>\<close>

text \<open>
  The screen is a React function component. Its handlers only ever write the component
  state (no handler reads a state variable), so the component state is a record that the
  handlers update in the order of their \<open>setX\<close> calls. JavaScript runs one handler, or one
  stretch of an \<open>async\<close> function between two \<open>await\<close>s, at a time: each such stretch is one
  atomic transition of the model, and an \<open>await\<close> parks a continuation until the
  environment delivers the awaited response.

  JavaScript numbers are IEEE doubles; coordinates are modelled as exact reals (rounding
  is outside the model), counts and millisecond timestamps as integers.
\<close>

record Region =
  latitude :: real
  longitude :: real
  latitudeDelta :: real
  longitudeDelta :: real

record Bounds =
  minLat :: real
  maxLat :: real
  minLng :: real
  maxLng :: real

datatype game_status = Active | Cancelled | Completed

record Game =
  id' :: string
  title :: string
  starts_at :: string
  location_name :: "string option"
  lat :: real
  lng :: real
  max_players :: int
  skill_min :: "real option"
  skill_max :: "real option"
  status :: game_status

subsection \<open>Requests to the remote store\<close>

text \<open>
  A read request is what the chained builder calls of the Supabase client accumulate:
  the table, the selected columns with the count options, the filters in call order, the
  ordering and the row limit. \<open>VTime t\<close> stands for the ISO-8601 rendering of the instant
  \<open>t\<close> (milliseconds since the epoch).
\<close>

datatype qvalue = VText string | VNumber real | VTime int

datatype qfilter = Eq string qvalue | Gte string qvalue | Lte string qvalue

record query =
  q_from :: string
  q_select :: string
  q_count :: "string option"
  q_head :: bool
  q_filters :: "qfilter list"
  q_order :: "(string \<times> bool) list"
  q_limit :: "nat option"

definition from_table :: "string \<Rightarrow> query" where
  "from_table t = \<lparr>q_from = t, q_select = [], q_count = None, q_head = False,
     q_filters = [], q_order = [], q_limit = None\<rparr>"

definition select_columns :: "string \<Rightarrow> query \<Rightarrow> query" where
  "select_columns cols q = q\<lparr>q_select := cols\<rparr>"

definition select_count :: "string \<Rightarrow> string \<Rightarrow> bool \<Rightarrow> query \<Rightarrow> query" where
  "select_count cols c h q = q\<lparr>q_select := cols, q_count := Some c, q_head := h\<rparr>"

definition add_filter :: "qfilter \<Rightarrow> query \<Rightarrow> query" where
  "add_filter f q = q\<lparr>q_filters := q_filters q @ [f]\<rparr>"

definition order_by :: "string \<Rightarrow> bool \<Rightarrow> query \<Rightarrow> query" where
  "order_by col ascending q = q\<lparr>q_order := q_order q @ [(col, ascending)]\<rparr>"

definition limit_rows :: "nat \<Rightarrow> query \<Rightarrow> query" where
  "limit_rows n q = q\<lparr>q_limit := Some n\<rparr>"

datatype request =
    RequestForegroundPermissions
  | GetCurrentPosition
  | AuthGetSession
  | Select query

text \<open>
  The responses of the three collaborators. A Supabase call resolves to a pair of a
  payload and an error, either of which may be null; the error is represented by its
  message, and \<open>data.session\<close> by the session's token. A promise that is rejected or
  never settles is a response that never comes: the continuation stays parked and no
  state cell is written (a rejection would at most add a console line).
\<close>

datatype response =
    PermissionResp string
  | PositionResp real real
  | SessionResp "string option"
  | GamesResp "Game list option" "string option"
  | CountResp "int option" "string option"

text \<open>The places where an \<open>async\<close> function of the component is suspended.\<close>

datatype cont =
    MountAwaitPermission
  | MountAwaitPosition
  | FetchAwaitSession Region
  | FetchAwaitGames
  | SelectAwaitCount

subsection \<open>Component state and runtime\<close>

text \<open>
  The first eight fields are the \<open>useState\<close> cells and the \<open>fetchTimer\<close> ref of the
  component. The others are the runtime around it: the clock, the table of armed timers
  (handle, due time, and the region captured by the timer's closure, in arming order),
  the suspended continuations, and the logs of what the component has sent out: requests,
  alert dialogs (title and message) and console lines.
\<close>

record screen =
  loadingLocation :: bool
  region :: "Region option"
  loadingGames :: bool
  games :: "Game list"
  selected :: "Game option"
  playerCount :: "int option"
  loadingCount :: bool
  fetchTimer :: "nat option"
  now :: int
  timers :: "(nat \<times> int \<times> Region) list"
  next_timer :: nat
  pending :: "nat \<rightharpoonup> cont"
  next_task :: nat
  requests :: "(nat \<times> request) list"
  alerts :: "(string \<times> string) list"
  console :: "string list list"

section \<open>The functions of the component\<close>

definition regionToBounds :: "Region \<Rightarrow> Bounds" where
  "regionToBounds r =
     \<lparr>minLat = latitude r - latitudeDelta r / 2,
      maxLat = latitude r + latitudeDelta r / 2,
      minLng = longitude r - longitudeDelta r / 2,
      maxLng = longitude r + longitudeDelta r / 2\<rparr>"

definition Alert_alert :: "string \<Rightarrow> string \<Rightarrow> screen \<Rightarrow> screen" where
  "Alert_alert ttl msg s = s\<lparr>alerts := alerts s @ [(ttl, msg)]\<rparr>"

definition console_log :: "string list \<Rightarrow> screen \<Rightarrow> screen" where
  "console_log args s = s\<lparr>console := console s @ [args]\<rparr>"

text \<open>
  \<open>await\<close>: the request goes out under a fresh number and the continuation is
  parked under that number.
\<close>

definition await :: "request \<Rightarrow> cont \<Rightarrow> screen \<Rightarrow> screen" where
  "await rq k s =
     s\<lparr>requests := requests s @ [(next_task s, rq)],
       pending := (pending s)(next_task s \<mapsto> k),
       next_task := Suc (next_task s)\<rparr>"

subsection \<open>\<open>ensureAuthedOrWarn\<close> and \<open>fetchGamesInRegion\<close>\<close>

text \<open>
  \<open>fetchGamesInRegion\<close> first awaits \<open>ensureAuthedOrWarn\<close>, which at once awaits
  \<open>supabase.auth.getSession()\<close>: the call runs up to that request.
\<close>

definition fetchGamesInRegion :: "Region \<Rightarrow> screen \<Rightarrow> screen" where
  "fetchGamesInRegion r s = await AuthGetSession (FetchAwaitSession r) s"

text \<open>The rest of \<open>ensureAuthedOrWarn\<close>, once \<open>data.session\<close> is known.\<close>

definition ensureAuthedOrWarn :: "string option \<Rightarrow> screen \<Rightarrow> bool \<times> screen" where
  "ensureAuthedOrWarn session s =
     (if session = None
      then (False, Alert_alert ''Not logged in''
        ''Your database policies currently require login to view games. Add Auth next, or temporarily allow public read for games.'' s)
      else (True, s))"

definition games_query :: "Bounds \<Rightarrow> int \<Rightarrow> query" where
  "games_query b oneHourAgo =
     (limit_rows 200
     (order_by ''starts_at'' True
     (add_filter (Lte ''lng'' (VNumber (maxLng b)))
     (add_filter (Gte ''lng'' (VNumber (minLng b)))
     (add_filter (Lte ''lat'' (VNumber (maxLat b)))
     (add_filter (Gte ''lat'' (VNumber (minLat b)))
     (add_filter (Gte ''starts_at'' (VTime oneHourAgo))
     (add_filter (Eq ''status'' (VText ''active''))
     (select_columns
        ''id,title,starts_at,location_name,lat,lng,max_players,skill_min,skill_max,status''
     (from_table ''games''))))))))))"

text \<open>
  \<open>fetchGamesInRegion\<close> from the return of \<open>ensureAuthedOrWarn\<close> up to the await of the
  query. \<open>Date.now()\<close> is read here, after the auth check.
\<close>

definition fetchGamesInRegion_authed :: "Region \<Rightarrow> string option \<Rightarrow> screen \<Rightarrow> screen" where
  "fetchGamesInRegion_authed r session s =
     (case ensureAuthedOrWarn session s of (ok, s1) \<Rightarrow>
        if \<not> ok then s1
        else
          let b = regionToBounds r;
              s2 = s1\<lparr>loadingGames := True\<rparr>;
              s3 = s2\<lparr>selected := None\<rparr>;
              s4 = s3\<lparr>playerCount := None\<rparr>;
              oneHourAgo = now s4 - 60 * 60 * 1000
          in await (Select (games_query b oneHourAgo)) FetchAwaitGames s4)"

text \<open>\<open>fetchGamesInRegion\<close> after the query has resolved to \<open>{ data, error }\<close>.\<close>

definition fetchGamesInRegion_done :: "Game list option \<Rightarrow> string option \<Rightarrow> screen \<Rightarrow> screen" where
  "fetchGamesInRegion_done data error s =
     (let s1 = s\<lparr>loadingGames := False\<rparr>
      in case error of
           Some msg \<Rightarrow> Alert_alert ''Error'' msg (console_log [''fetch games error'', msg] s1)
         | None \<Rightarrow> s1\<lparr>games := (case data of None \<Rightarrow> [] | Some rows \<Rightarrow> rows)\<rparr>)"

subsection \<open>The debounce timer\<close>

text \<open>
  \<open>setTimeout\<close> hands out a fresh handle and enters the timer in the table;
  \<open>clearTimeout\<close> removes the timer with that handle, if it is still there. Handles are
  numbers, counted up from 1 by the runtime. \<open>scheduleFetch\<close> tests the handle for
  truthiness before it clears it, and a number is truthy unless it is 0.
\<close>

definition clearTimeout :: "nat \<Rightarrow> screen \<Rightarrow> screen" where
  "clearTimeout h s = s\<lparr>timers := filter (\<lambda>(h', d, r). h' \<noteq> h) (timers s)\<rparr>"

definition setTimeout :: "Region \<Rightarrow> int \<Rightarrow> screen \<Rightarrow> nat \<times> screen" where
  "setTimeout r delay s =
     (next_timer s,
      s\<lparr>timers := timers s @ [(next_timer s, now s + delay, r)],
        next_timer := Suc (next_timer s)\<rparr>)"

definition scheduleFetch :: "Region \<Rightarrow> screen \<Rightarrow> screen" where
  "scheduleFetch r s =
     (let s1 = (case fetchTimer s of
                  None \<Rightarrow> s
                | Some h \<Rightarrow> if h \<noteq> 0 then clearTimeout h s else s)
      in case setTimeout r 450 s1 of (h, s2) \<Rightarrow> s2\<lparr>fetchTimer := Some h\<rparr>)"

subsection \<open>\<open>onSelectGame\<close>\<close>

definition count_query :: "string \<Rightarrow> query" where
  "count_query gid =
     add_filter (Eq ''game_id'' (VText gid))
       (select_count ''user_id'' ''exact'' True (from_table ''game_players''))"

definition onSelectGame :: "Game \<Rightarrow> screen \<Rightarrow> screen" where
  "onSelectGame g s =
     (let s1 = s\<lparr>selected := Some g\<rparr>;
          s2 = s1\<lparr>playerCount := None\<rparr>;
          s3 = s2\<lparr>loadingCount := True\<rparr>
      in await (Select (count_query (id' g))) SelectAwaitCount s3)"

definition onSelectGame_done :: "int option \<Rightarrow> string option \<Rightarrow> screen \<Rightarrow> screen" where
  "onSelectGame_done count error s =
     (let s1 = s\<lparr>loadingCount := False\<rparr>
      in case error of
           Some msg \<Rightarrow> (console_log [''count error'', msg] s1)\<lparr>playerCount := None\<rparr>
         | None \<Rightarrow> s1\<lparr>playerCount := Some (case count of None \<Rightarrow> 0 | Some c \<Rightarrow> c)\<rparr>)"

subsection \<open>The mount effect\<close>

text \<open>
  The effect of \<open>useEffect(..., [])\<close> runs once, when the component is mounted with the
  initial values of its state cells.
\<close>

definition initial_screen :: "int \<Rightarrow> screen" where
  "initial_screen t0 =
     \<lparr>loadingLocation = True, region = None, loadingGames = False, games = [],
      selected = None, playerCount = None, loadingCount = False, fetchTimer = None,
      now = t0, timers = [], next_timer = 1, pending = Map.empty, next_task = 0,
      requests = [], alerts = [], console = []\<rparr>"

definition mount :: "screen \<Rightarrow> screen" where
  "mount s = await RequestForegroundPermissions MountAwaitPermission (s\<lparr>loadingLocation := True\<rparr>)"

definition mounted :: "int \<Rightarrow> screen" where
  "mounted t0 = mount (initial_screen t0)"

definition mount_permission :: "string \<Rightarrow> screen \<Rightarrow> screen" where
  "mount_permission st s =
     (if st \<noteq> ''granted''
      then Alert_alert ''Location needed''
             ''Enable location permission to find games near you.''
             (s\<lparr>loadingLocation := False\<rparr>)
      else await GetCurrentPosition MountAwaitPosition s)"

definition initial_region :: "real \<Rightarrow> real \<Rightarrow> Region" where
  "initial_region la lo =
     \<lparr>latitude = la, longitude = lo, latitudeDelta = 0.06, longitudeDelta = 0.06\<rparr>"

definition mount_position :: "real \<Rightarrow> real \<Rightarrow> screen \<Rightarrow> screen" where
  "mount_position la lo s =
     (let initial = initial_region la lo;
          s1 = s\<lparr>region := Some initial\<rparr>;
          s2 = s1\<lparr>loadingLocation := False\<rparr>
      in fetchGamesInRegion initial s2)"

section \<open>Events\<close>

text \<open>
  What can happen to a mounted screen: an awaited response arrives, the map reports a
  settled viewport, a marker is pressed, one of the two buttons of the selection card is
  pressed, or time just passes. The map and its markers exist only when the component
  renders them (location loaded and a region set), a marker only for a game of the
  visible list, and the card only while a game is selected; an event on a control that
  is not rendered cannot happen and leaves the state as it is. So does a response that
  nothing is waiting for. (The message of the \<open>Join\<close> alert has a typographic apostrophe,
  written here as its three UTF-8 bytes.)
\<close>

datatype event =
    Resolve nat response
  | RegionChangeComplete Region
  | MarkerPress Game
  | ClosePress
  | JoinPress
  | Idle

definition map_rendered :: "screen \<Rightarrow> bool" where
  "map_rendered s = (\<not> (loadingLocation s \<or> region s = None))"

fun resume :: "cont \<Rightarrow> response \<Rightarrow> (screen \<Rightarrow> screen) option" where
  "resume MountAwaitPermission (PermissionResp st) = Some (mount_permission st)"
| "resume MountAwaitPosition (PositionResp la lo) = Some (mount_position la lo)"
| "resume (FetchAwaitSession r) (SessionResp session) = Some (fetchGamesInRegion_authed r session)"
| "resume FetchAwaitGames (GamesResp data error) = Some (fetchGamesInRegion_done data error)"
| "resume SelectAwaitCount (CountResp count error) = Some (onSelectGame_done count error)"
| "resume _ _ = None"

definition resolve :: "nat \<Rightarrow> response \<Rightarrow> screen \<Rightarrow> screen" where
  "resolve tid resp s =
     (case pending s tid of
        None \<Rightarrow> s
      | Some k \<Rightarrow>
          (case resume k resp of
             None \<Rightarrow> s
           | Some f \<Rightarrow> f (s\<lparr>pending := (pending s)(tid := None)\<rparr>)))"

fun step :: "event \<Rightarrow> screen \<Rightarrow> screen" where
  "step (Resolve tid resp) s = resolve tid resp s"
| "step (RegionChangeComplete r) s =
     (if map_rendered s then scheduleFetch r (s\<lparr>region := Some r\<rparr>) else s)"
| "step (MarkerPress g) s =
     (if map_rendered s \<and> g \<in> set (games s) then onSelectGame g s else s)"
| "step ClosePress s =
     (if map_rendered s \<and> selected s \<noteq> None then s\<lparr>selected := None\<rparr> else s)"
| "step JoinPress s =
     (if map_rendered s \<and> selected s \<noteq> None
      then Alert_alert ''Next step''
             (''We'' @ [CHR 0xE2, CHR 0x80, CHR 0x99] @ ''ll wire Join/Leave next.'') s
      else s)"
| "step Idle s = s"

subsection \<open>Time\<close>

text \<open>
  A timer that is due runs its callback, \<open>fetchGamesInRegion(r)\<close> for the region it
  captured, and leaves the table. Every timer is armed with the same delay, so the
  table is in due order and the due timers run front to back. An event stamped \<open>t\<close> is
  handled after every timer due by \<open>t\<close> has run; the clock never runs backwards.
\<close>

definition fire :: "nat \<times> int \<times> Region \<Rightarrow> screen \<Rightarrow> screen" where
  "fire tm s =
     (case tm of (h, d, r) \<Rightarrow>
        fetchGamesInRegion r
          (s\<lparr>now := max (now s) d, timers := filter (\<lambda>(h', d', r'). h' \<noteq> h) (timers s)\<rparr>))"

definition advance :: "int \<Rightarrow> screen \<Rightarrow> screen" where
  "advance t s =
     (let s' = fold fire (filter (\<lambda>(h, d, r). d \<le> t) (timers s)) s
      in s'\<lparr>now := max (now s') t\<rparr>)"

fun run :: "(int \<times> event) list \<Rightarrow> screen \<Rightarrow> screen" where
  "run [] s = s"
| "run ((t, e) # evs) s = run evs (step e (advance t s))"

text \<open>The session-list queries among the requests sent so far, oldest first.\<close>

definition game_queries :: "screen \<Rightarrow> query list" where
  "game_queries s =
     concat (map (\<lambda>(tid, rq). case rq of Select q \<Rightarrow> (if q_from q = ''games'' then [q] else []) | _ \<Rightarrow> [])
       (requests s))"

section \<open>Properties of states and runs\<close>

text \<open>
  The timer invariant: handles are handed out from 1 upwards, at most one timer is
  armed, and an armed timer is the one whose handle the \<open>fetchTimer\<close> ref holds.
\<close>

definition timer_inv :: "screen \<Rightarrow> bool" where
  "timer_inv s =
     (0 < next_timer s \<and> length (timers s) \<le> 1 \<and>
      list_all (\<lambda>(h, d, r). fetchTimer s = Some h \<and> h \<noteq> 0) (timers s))"

text \<open>
  A burst of viewport changes: each event comes no earlier than the one before it and
  less than 450 ms after it. \<open>settle_events\<close> turns the stamped viewports into events.
\<close>

fun within_debounce :: "int \<Rightarrow> (int \<times> Region) list \<Rightarrow> bool" where
  "within_debounce t [] = True"
| "within_debounce t ((t', r) # vs) = (t \<le> t' \<and> t' < t + 450 \<and> within_debounce t' vs)"

definition settle_events :: "(int \<times> Region) list \<Rightarrow> (int \<times> event) list" where
  "settle_events vs = map (\<lambda>(t, r). (t, RegionChangeComplete r)) vs"

text \<open>
  A screen that has stopped: no region (so no map is rendered), no continuation parked,
  no timer armed.
\<close>

definition halted :: "screen \<Rightarrow> bool" where
  "halted s = (region s = None \<and> pending s = Map.empty \<and> timers s = [])"

section \<open>Sample runs\<close>

text \<open>
  Two games, and a session that is followed from the mount: the permission is granted
  at 100 ms, the position resolves at 200 ms (\<open>locating\<close>: the first fetch awaits its auth
  check), the auth check finds a session at 300 ms (\<open>querying\<close>), and the query returns
  both games at 400 ms (\<open>settled\<close>). Then game A is pressed (\<open>inspecting\<close>); its count
  arrives and the map is moved, so that the timer has started the next fetch
  (\<open>repanning\<close>); or the map is moved right away and the next query goes out
  (\<open>settled_again\<close>).
\<close>

definition gameA :: Game where
  "gameA = \<lparr>id' = ''a'', title = ''Beach doubles'', starts_at = ''2026-07-01T18:00:00Z'',
     location_name = Some ''Pier 4'', lat = 40.01, lng = - 74.01, max_players = 4,
     skill_min = None, skill_max = None, status = Active\<rparr>"

definition gameB :: Game where
  "gameB = \<lparr>id' = ''b'', title = ''Indoor sixes'', starts_at = ''2026-07-01T19:30:00Z'',
     location_name = None, lat = 39.99, lng = - 73.99, max_players = 12,
     skill_min = Some 2, skill_max = Some 4, status = Active\<rparr>"

definition locating :: screen where
  "locating = run [(100, Resolve 0 (PermissionResp ''granted'')),
                   (200, Resolve 1 (PositionResp 40.0 (- 74.0)))] (mounted 0)"

definition querying :: screen where
  "querying = run [(300, Resolve 2 (SessionResp (Some ''token'')))] locating"

definition settled :: screen where
  "settled = run [(400, Resolve 3 (GamesResp (Some [gameA, gameB]) None))] querying"

definition inspecting :: screen where
  "inspecting = run [(500, MarkerPress gameA)] settled"

definition repanning :: screen where
  "repanning = run [(600, Resolve 4 (CountResp (Some 3) None)),
                    (1000, RegionChangeComplete (initial_region 40.01 (- 74.0))),
                    (1500, Idle)] inspecting"

definition settled_again :: screen where
  "settled_again = run [(1000, RegionChangeComplete (initial_region 40.01 (- 74.0))),
                        (1500, Resolve 4 (SessionResp (Some ''token'')))] settled"

text \<open>
  Game A is pressed, then game B, and the count for B arrives before the count for A.
\<close>

definition stale_count_trace :: "(int \<times> event) list" where
  "stale_count_trace =
     [(500, MarkerPress gameA),
      (600, MarkerPress gameB),
      (700, Resolve 5 (CountResp (Some 5) None)),
      (800, Resolve 4 (CountResp (Some 3) None))]"

text \<open>
  Nobody is logged in: the startup alone, and the startup followed by two viewport
  changes 100 ms apart. The tail of a burst of three viewport changes.
\<close>

definition unauthenticated_startup :: "(int \<times> event) list" where
  "unauthenticated_startup =
     [(100, Resolve 0 (PermissionResp ''granted'')),
      (200, Resolve 1 (PositionResp 40.0 (- 74.0))),
      (300, Resolve 2 (SessionResp None))]"

definition unauthenticated_pan :: "(int \<times> event) list" where
  "unauthenticated_pan =
     [(100, Resolve 0 (PermissionResp ''granted'')),
      (200, Resolve 1 (PositionResp 40.0 (- 74.0))),
      (300, Resolve 2 (SessionResp None)),
      (1000, RegionChangeComplete (initial_region 40.01 (- 74.0))),
      (1100, RegionChangeComplete (initial_region 40.02 (- 74.0))),
      (1550, Idle),
      (1600, Resolve 3 (SessionResp None)),
      (5000, Idle)]"

definition pan_tail :: "(int \<times> Region) list" where
  "pan_tail = [(1100, initial_region 40.02 (- 74.0)),
               (1400, initial_region 40.03 (- 74.01))]"

section \<open>Auxiliary facts\<close>

subsection \<open>Queries\<close>

lemmas handler_defs =
  Alert_alert_def console_log_def await_def fetchGamesInRegion_def ensureAuthedOrWarn_def
  fetchGamesInRegion_authed_def fetchGamesInRegion_done_def clearTimeout_def setTimeout_def
  scheduleFetch_def onSelectGame_def onSelectGame_done_def mount_def mount_permission_def
  mount_position_def resolve_def

lemma q_from_games_query: "q_from (games_query b t) = ''games''"
  by (simp add: games_query_def from_table_def select_columns_def add_filter_def order_by_def limit_rows_def)

lemma q_from_count_query: "q_from (count_query g) = ''game_players''"
  by (simp add: count_query_def from_table_def select_count_def add_filter_def)

lemma games_query_explicit:
  "games_query b t =
     \<lparr>q_from = ''games'',
      q_select = ''id,title,starts_at,location_name,lat,lng,max_players,skill_min,skill_max,status'',
      q_count = None, q_head = False,
      q_filters = [Eq ''status'' (VText ''active''), Gte ''starts_at'' (VTime t),
                   Gte ''lat'' (VNumber (minLat b)), Lte ''lat'' (VNumber (maxLat b)),
                   Gte ''lng'' (VNumber (minLng b)), Lte ''lng'' (VNumber (maxLng b))],
      q_order = [(''starts_at'', True)], q_limit = Some 200\<rparr>"
  by (simp add: games_query_def from_table_def select_columns_def add_filter_def order_by_def limit_rows_def)

text \<open>
  The one step that sends a session-list query resumes a fetch whose auth check has
  found a session.
\<close>

lemma step_game_queries:
  "game_queries (step e s) = game_queries s \<or>
   (\<exists>tid r tok. e = Resolve tid (SessionResp (Some tok)) \<and> pending s tid = Some (FetchAwaitSession r)
      \<and> game_queries (step e s) = game_queries s @ [games_query (regionToBounds r) (now s - 3600000)])"
proof (cases e)
  case (Resolve tid resp)
  show ?thesis
  proof (cases "pending s tid")
    case None
    then show ?thesis using Resolve by (simp add: resolve_def)
  next
    case (Some k)
    then show ?thesis using Resolve
      by (cases k; cases resp)
         (auto simp: handler_defs game_queries_def q_from_games_query q_from_count_query Let_def
               split: option.splits)
  qed
qed (auto simp: handler_defs game_queries_def q_from_count_query Let_def split: option.splits)

lemma session_resume_queries:
  assumes "pending s tid = Some (FetchAwaitSession r)"
  shows "game_queries (step (Resolve tid (SessionResp (Some tok))) s)
           = game_queries s @ [games_query (regionToBounds r) (now s - 3600000)]
    \<and> game_queries (step (Resolve tid (SessionResp None)) s) = game_queries s"
  using assms
  by (simp add: handler_defs game_queries_def q_from_games_query Let_def)

lemma fold_fire_game_queries: "game_queries (fold fire tms s) = game_queries s"
  by (induction tms arbitrary: s) (simp_all add: fire_def handler_defs game_queries_def split: prod.splits)

lemma advance_game_queries: "game_queries (advance t s) = game_queries s"
  using fold_fire_game_queries [of "filter (\<lambda>(h, d, r). d \<le> t) (timers s)" s]
  by (simp add: advance_def Let_def game_queries_def)

lemma game_queries_mounted: "game_queries (mounted t0) = []"
  by (simp add: mounted_def mount_def await_def initial_screen_def game_queries_def)

lemma run_game_queries_shape:
  "(\<forall>q \<in> set (game_queries s). \<exists>r t. q = games_query (regionToBounds r) t)
   \<Longrightarrow> \<forall>q \<in> set (game_queries (run evs s)). \<exists>r t. q = games_query (regionToBounds r) t"
proof (induction evs arbitrary: s)
  case Nil
  then show ?case by simp
next
  case (Cons te evs)
  obtain t e where te: "te = (t, e)" by (cases te)
  have "\<forall>q \<in> set (game_queries (step e (advance t s))). \<exists>r t. q = games_query (regionToBounds r) t"
    using step_game_queries [of e "advance t s"] Cons.prems
    by (auto simp: advance_game_queries) blast
  then show ?case using Cons.IH te by simp
qed

subsection \<open>The sample runs, evaluated\<close>

lemmas run_defs = handler_defs mounted_def initial_screen_def advance_def fire_def map_rendered_def
   initial_region_def Let_def

lemmas trace_defs = locating_def querying_def settled_def inspecting_def

lemma locating_fields:
  "pending locating 2 = Some (FetchAwaitSession (initial_region 40.0 (- 74.0)))"
  "game_queries locating = []" "timers locating = []" "now locating = 200"
  "games locating = []" "selected locating = None" "playerCount locating = None"
  "loadingGames locating = False" "alerts locating = []"
  by (simp_all add: trace_defs run_defs game_queries_def)

lemma querying_fields:
  "pending querying 3 = Some FetchAwaitGames"
  "games querying = []" "selected querying = None" "playerCount querying = None"
  "loadingGames querying = True" "alerts querying = []"
  by (simp_all add: trace_defs run_defs game_queries_def)

lemma settled_fields:
  "games settled = [gameA, gameB]" "map_rendered settled" "selected settled = None"
  "next_task settled = 4" "timers settled = []" "now settled = 400"
  "pending settled 3 = None" "alerts settled = []"
  by (simp_all add: trace_defs run_defs game_queries_def q_from_games_query)

lemma settled_timer_fields:
  "next_timer settled = 1" "fetchTimer settled = None"
  by (simp_all add: trace_defs run_defs)

lemma inspecting_fields:
  "pending inspecting 4 = Some SelectAwaitCount" "selected inspecting = Some gameA"
  "playerCount inspecting = None" "loadingCount inspecting = True" "alerts inspecting = []"
  "games inspecting = [gameA, gameB]"
  by (simp_all add: trace_defs run_defs game_queries_def q_from_games_query)

lemma repanning_fields:
  "pending repanning 5 = Some (FetchAwaitSession (initial_region 40.01 (- 74.0)))"
  "games repanning = [gameA, gameB]" "selected repanning = Some gameA"
  "playerCount repanning = Some 3" "loadingGames repanning = False" "timers repanning = []"
  by (simp_all add: repanning_def trace_defs run_defs)

lemma settled_again_fields:
  "pending settled_again 5 = Some FetchAwaitGames" "games settled_again = [gameA, gameB]"
  "alerts settled_again = []" "loadingGames settled_again"
  "selected settled_again = None" "playerCount settled_again = None"
  by (simp_all add: settled_again_def trace_defs run_defs)

subsection \<open>The timer invariant\<close>

lemma timer_inv_mounted: "timer_inv (mounted t0)"
  by (simp add: timer_inv_def mounted_def mount_def await_def initial_screen_def)

lemma resume_timer_frame:
  assumes "resume k resp = Some f"
  shows "timers (f s) = timers s \<and> fetchTimer (f s) = fetchTimer s \<and> next_timer (f s) = next_timer s"
  using assms
  by (cases k; cases resp)
     (auto simp: handler_defs Let_def split: option.splits if_splits)

lemma timer_inv_resolve: "timer_inv s \<Longrightarrow> timer_inv (resolve tid resp s)"
proof -
  assume inv: "timer_inv s"
  show ?thesis
  proof (cases "pending s tid")
    case None
    then show ?thesis using inv by (simp add: resolve_def)
  next
    case (Some k)
    show ?thesis
    proof (cases "resume k resp")
      case None
      then show ?thesis using inv Some by (simp add: resolve_def)
    next
      case (Some f)
      then show ?thesis
        using inv \<open>pending s tid = Some k\<close>
          resume_timer_frame [OF Some, of "s\<lparr>pending := (pending s)(tid := None)\<rparr>"]
        by (simp add: resolve_def timer_inv_def)
    qed
  qed
qed

lemma scheduleFetch_timers:
  assumes "timer_inv s"
  shows "timers (scheduleFetch r s) = [(next_timer s, now s + 450, r)]
    \<and> fetchTimer (scheduleFetch r s) = Some (next_timer s)
    \<and> next_timer (scheduleFetch r s) = Suc (next_timer s)"
  using assms
  by (cases "timers s"; cases "fetchTimer s")
     (auto simp: timer_inv_def scheduleFetch_def clearTimeout_def setTimeout_def)

lemma timer_inv_scheduleFetch: "timer_inv s \<Longrightarrow> timer_inv (scheduleFetch r s)"
  using scheduleFetch_timers [of s r] by (simp add: timer_inv_def)

lemma timer_inv_step: "timer_inv s \<Longrightarrow> timer_inv (step e s)"
proof (cases e)
  case (Resolve tid resp)
  assume "timer_inv s"
  then show ?thesis using Resolve timer_inv_resolve by simp
next
  case (RegionChangeComplete r)
  assume inv: "timer_inv s"
  have "timer_inv (s\<lparr>region := Some r\<rparr>)" using inv by (simp add: timer_inv_def)
  then show ?thesis using RegionChangeComplete inv timer_inv_scheduleFetch by simp
next
  case (MarkerPress g)
  assume "timer_inv s"
  then show ?thesis using MarkerPress
    by (simp add: timer_inv_def onSelectGame_def await_def Let_def)
next
  case ClosePress
  assume "timer_inv s"
  then show ?thesis using ClosePress by (simp add: timer_inv_def)
next
  case JoinPress
  assume "timer_inv s"
  then show ?thesis using JoinPress by (simp add: timer_inv_def Alert_alert_def)
next
  case Idle
  assume "timer_inv s"
  then show ?thesis using Idle by simp
qed

lemma advance_nothing_due:
  assumes "\<forall>tm \<in> set (timers s). t < fst (snd tm)"
  shows "advance t s = s\<lparr>now := max (now s) t\<rparr>"
proof -
  have "filter (\<lambda>(h, d, r). d \<le> t) (timers s) = []"
    using assms by (auto simp: filter_empty_conv)
  then show ?thesis by (simp add: advance_def)
qed

lemma advance_one_due:
  assumes "timers s = [(h, d, r)]" and "d \<le> t"
  shows "advance t s =
    (fetchGamesInRegion r (s\<lparr>now := max (now s) d, timers := []\<rparr>))\<lparr>now := max (max (now s) d) t\<rparr>"
  using assms by (simp add: advance_def fire_def fetchGamesInRegion_def await_def)

lemma timer_inv_advance: "timer_inv s \<Longrightarrow> timer_inv (advance t s)"
proof -
  assume inv: "timer_inv s"
  show ?thesis
  proof (cases "timers s")
    case Nil
    then have "advance t s = s\<lparr>now := max (now s) t\<rparr>" by (simp add: advance_nothing_due)
    then show ?thesis using inv by (simp add: timer_inv_def)
  next
    case (Cons tm rest)
    obtain h d r where tm: "tm = (h, d, r)" by (cases tm)
    have one: "timers s = [(h, d, r)]" using inv Cons tm by (simp add: timer_inv_def)
    show ?thesis
    proof (cases "d \<le> t")
      case True
      then show ?thesis using inv advance_one_due [OF one True]
        by (simp add: timer_inv_def fetchGamesInRegion_def await_def)
    next
      case False
      then have "advance t s = s\<lparr>now := max (now s) t\<rparr>"
        using one by (simp add: advance_nothing_due)
      then show ?thesis using inv by (simp add: timer_inv_def)
    qed
  qed
qed

lemma timer_inv_run: "timer_inv s \<Longrightarrow> timer_inv (run evs s)"
proof (induction evs arbitrary: s)
  case Nil
  then show ?case by simp
next
  case (Cons te evs)
  obtain t e where "te = (t, e)" by (cases te)
  then show ?case using Cons timer_inv_step timer_inv_advance by simp
qed

lemma timer_inv_length: "timer_inv s \<Longrightarrow> length (timers s) \<le> 1"
  by (simp add: timer_inv_def)

subsection \<open>A burst of viewport changes\<close>

text \<open>
  One viewport change that finds no timer due leaves exactly its own timer armed and
  sends nothing; so does a whole burst, by induction on its length.
\<close>

lemma run_append: "run (xs @ ys) s = run ys (run xs s)"
  by (induction xs arbitrary: s) auto

lemma settle_step:
  assumes "map_rendered s" and "timer_inv s" and "now s \<le> t"
    and "\<forall>tm \<in> set (timers s). t < fst (snd tm)"
  shows "timers (step (RegionChangeComplete r) (advance t s)) = [(next_timer s, t + 450, r)]
    \<and> now (step (RegionChangeComplete r) (advance t s)) = t
    \<and> requests (step (RegionChangeComplete r) (advance t s)) = requests s
    \<and> pending (step (RegionChangeComplete r) (advance t s)) = pending s
    \<and> next_task (step (RegionChangeComplete r) (advance t s)) = next_task s
    \<and> map_rendered (step (RegionChangeComplete r) (advance t s))
    \<and> timer_inv (step (RegionChangeComplete r) (advance t s))"
proof -
  let ?s0 = "s\<lparr>now := max (now s) t\<rparr>"
  let ?s1 = "?s0\<lparr>region := Some r\<rparr>"
  have adv: "advance t s = ?s0" using assms(4) by (rule advance_nothing_due)
  have inv1: "timer_inv ?s1" using assms(2) by (simp add: timer_inv_def)
  have rendered: "map_rendered ?s0" using assms(1) by (simp add: map_rendered_def)
  have st: "step (RegionChangeComplete r) (advance t s) = scheduleFetch r ?s1"
    using adv rendered by simp
  have frame: "requests (scheduleFetch r ?s1) = requests s
     \<and> pending (scheduleFetch r ?s1) = pending s
     \<and> next_task (scheduleFetch r ?s1) = next_task s
     \<and> now (scheduleFetch r ?s1) = t
     \<and> map_rendered (scheduleFetch r ?s1)"
    using assms(1,3)
    by (simp add: scheduleFetch_def clearTimeout_def setTimeout_def map_rendered_def Let_def
          split: option.splits)
  show ?thesis
    using st frame scheduleFetch_timers [OF inv1, of r] timer_inv_scheduleFetch [OF inv1, of r] assms(3)
    by simp
qed

lemma burst:
  assumes "map_rendered s" and "timer_inv s" and "now s \<le> t1"
    and "\<forall>tm \<in> set (timers s). t1 < fst (snd tm)"
    and "within_debounce t1 vs"
  shows "(\<exists>h. timers (run (settle_events ((t1, r1) # vs)) s)
            = [(h, fst (last ((t1, r1) # vs)) + 450, snd (last ((t1, r1) # vs)))])
    \<and> now (run (settle_events ((t1, r1) # vs)) s) = fst (last ((t1, r1) # vs))
    \<and> requests (run (settle_events ((t1, r1) # vs)) s) = requests s
    \<and> pending (run (settle_events ((t1, r1) # vs)) s) = pending s
    \<and> next_task (run (settle_events ((t1, r1) # vs)) s) = next_task s
    \<and> map_rendered (run (settle_events ((t1, r1) # vs)) s)
    \<and> timer_inv (run (settle_events ((t1, r1) # vs)) s)"
  using assms
proof (induction vs arbitrary: s t1 r1)
  case Nil
  then show ?case using settle_step [of s t1 r1] by (simp add: settle_events_def)
next
  case (Cons v vs)
  obtain t2 r2 where v: "v = (t2, r2)" by (cases v)
  let ?s1 = "step (RegionChangeComplete r1) (advance t1 s)"
  have s1: "timers ?s1 = [(next_timer s, t1 + 450, r1)]" "now ?s1 = t1"
    "requests ?s1 = requests s" "pending ?s1 = pending s" "next_task ?s1 = next_task s"
    "map_rendered ?s1" "timer_inv ?s1"
    using settle_step [OF Cons.prems(1-4), of r1] by simp_all
  have w: "t1 \<le> t2" "t2 < t1 + 450" "within_debounce t2 vs"
    using Cons.prems(5) v by simp_all
  have due: "\<forall>tm \<in> set (timers ?s1). t2 < fst (snd tm)" using s1(1) w(2) by simp
  have le: "now ?s1 \<le> t2" using s1(2) w(1) by simp
  have unfold: "run (settle_events ((t1, r1) # v # vs)) s = run (settle_events ((t2, r2) # vs)) ?s1"
    by (simp add: settle_events_def v)
  show ?case
    using Cons.IH [OF s1(6) s1(7) le due w(3), of r2] s1(3-5) unfold v
    by simp
qed

lemma fire_after_burst:
  assumes "timers s1 = [(h, d, r)]" and "now s1 \<le> d" and "d \<le> T"
  shows "requests (advance T s1) = requests s1 @ [(next_task s1, AuthGetSession)]
    \<and> pending (advance T s1) = (pending s1)(next_task s1 \<mapsto> FetchAwaitSession r)
    \<and> timers (advance T s1) = []
    \<and> now (advance T s1) = T
    \<and> game_queries (advance T s1) = game_queries s1"
  using assms advance_one_due [OF assms(1) assms(3)]
  by (simp add: fetchGamesInRegion_def await_def game_queries_def)

lemma quiet_after_burst:
  assumes "timers s1 = [(h, d, r)]" and "T < d"
  shows "requests (advance T s1) = requests s1"
  using assms advance_nothing_due [of s1 T] by simp

subsection \<open>A stopped screen\<close>

lemma halted_step: "halted s \<Longrightarrow> step e s = s"
  by (cases e) (simp_all add: halted_def resolve_def map_rendered_def)

lemma halted_advance: "halted s \<Longrightarrow> advance t s = s\<lparr>now := max (now s) t\<rparr>"
  by (simp add: halted_def advance_def)

lemma halted_run: "halted s \<Longrightarrow> \<exists>n. run evs s = s\<lparr>now := n\<rparr>"
proof (induction evs arbitrary: s)
  case Nil
  have "s = s\<lparr>now := now s\<rparr>" by simp
  then show ?case by (metis run.simps(1))
next
  case (Cons te evs)
  obtain t e where te: "te = (t, e)" by (cases te)
  let ?s = "s\<lparr>now := max (now s) t\<rparr>"
  have h: "halted ?s" using Cons.prems by (simp add: halted_def)
  have "run (te # evs) s = run evs ?s"
    using te halted_advance [OF Cons.prems] halted_step [OF h] by simp
  moreover obtain n where "run evs ?s = ?s\<lparr>now := n\<rparr>" using Cons.IH [OF h] by blast
  ultimately have "run (te # evs) s = s\<lparr>now := n\<rparr>" by simp
  then show ?case by blast
qed

lemma denied_halted:
  assumes "st \<noteq> ''granted''"
  shows "halted (step (Resolve 0 (PermissionResp st)) (advance t (mounted t0)))"
    and "requests (step (Resolve 0 (PermissionResp st)) (advance t (mounted t0)))
           = [(0, RequestForegroundPermissions)]"
    and "alerts (step (Resolve 0 (PermissionResp st)) (advance t (mounted t0)))
           = [(''Location needed'', ''Enable location permission to find games near you.'')]"
    and "\<not> loadingLocation (step (Resolve 0 (PermissionResp st)) (advance t (mounted t0)))"
    and "games (step (Resolve 0 (PermissionResp st)) (advance t (mounted t0))) = []"
  using assms by (simp_all add: halted_def run_defs)

section \<open>The bounding box of a viewport\<close>

text \<open>
  C4. For a viewport with positive spans the box is ordered (\<open>minLat \<le> maxLat\<close>,
  \<open>minLng \<le> maxLng\<close>), each side lies half a span from the centre, so the box is
  symmetric around the centre, and the viewport at (40.0, -74.0) with spans 0.06 gets the
  box 39.97 .. 40.03 by -74.03 .. -73.97.
\<close>

theorem regionToBounds_ordered_symmetric:
  assumes "0 < latitudeDelta r" and "0 < longitudeDelta r"
  shows "minLat (regionToBounds r) \<le> maxLat (regionToBounds r)
    \<and> minLng (regionToBounds r) \<le> maxLng (regionToBounds r)
    \<and> minLat (regionToBounds r) = latitude r - latitudeDelta r / 2
    \<and> maxLat (regionToBounds r) = latitude r + latitudeDelta r / 2
    \<and> minLng (regionToBounds r) = longitude r - longitudeDelta r / 2
    \<and> maxLng (regionToBounds r) = longitude r + longitudeDelta r / 2
    \<and> latitude r - minLat (regionToBounds r) = maxLat (regionToBounds r) - latitude r
    \<and> longitude r - minLng (regionToBounds r) = maxLng (regionToBounds r) - longitude r
    \<and> regionToBounds \<lparr>latitude = 40.0, longitude = - 74.0,
          latitudeDelta = 0.06, longitudeDelta = 0.06\<rparr>
        = \<lparr>minLat = 39.97, maxLat = 40.03, minLng = - 74.03, maxLng = - 73.97\<rparr>"
  using assms by (simp add: regionToBounds_def)

theorem regionToBounds_ordered_symmetric_witness:
  "0 < latitudeDelta (initial_region 40.0 (- 74.0))
   \<and> 0 < longitudeDelta (initial_region 40.0 (- 74.0))
   \<and> minLat (regionToBounds (initial_region 40.0 (- 74.0))) = 39.97
   \<and> maxLat (regionToBounds (initial_region 40.0 (- 74.0))) = 40.03
   \<and> minLat (regionToBounds (initial_region 40.0 (- 74.0)))
       \<le> maxLat (regionToBounds (initial_region 40.0 (- 74.0)))
   \<and> minLng (regionToBounds (initial_region 40.0 (- 74.0)))
       \<le> maxLng (regionToBounds (initial_region 40.0 (- 74.0)))"
  using regionToBounds_ordered_symmetric [of "initial_region 40.0 (- 74.0)"]
  by (simp add: initial_region_def)

section \<open>The session-list query\<close>

text \<open>
  C2. Every session-list query is built in one place, the stretch of
  \<open>fetchGamesInRegion\<close> that follows a successful auth check, and there it is exactly:
  table \<open>games\<close>, status equal to \<open>active\<close>, \<open>starts_at\<close> at least the current time
  minus 3600 seconds, \<open>lat\<close> between \<open>minLat\<close> and \<open>maxLat\<close> and \<open>lng\<close> between
  \<open>minLng\<close> and \<open>maxLng\<close> of the viewport's bounds, ordered by \<open>starts_at\<close> ascending, at
  most 200 rows. No other event and no timer sends such a query, so every session-list
  query of every run has this form. When the query succeeds, the rows returned become
  the visible list (the empty list for a null payload).
\<close>

theorem session_query_shape:
  "(game_queries (step e s) = game_queries s \<or>
    (\<exists>tid r tok. e = Resolve tid (SessionResp (Some tok))
       \<and> pending s tid = Some (FetchAwaitSession r)
       \<and> game_queries (step e s) = game_queries s @
           [\<lparr>q_from = ''games'',
             q_select = ''id,title,starts_at,location_name,lat,lng,max_players,skill_min,skill_max,status'',
             q_count = None, q_head = False,
             q_filters =
               [Eq ''status'' (VText ''active''),
                Gte ''starts_at'' (VTime (now s - 3600 * 1000)),
                Gte ''lat'' (VNumber (minLat (regionToBounds r))),
                Lte ''lat'' (VNumber (maxLat (regionToBounds r))),
                Gte ''lng'' (VNumber (minLng (regionToBounds r))),
                Lte ''lng'' (VNumber (maxLng (regionToBounds r)))],
             q_order = [(''starts_at'', True)], q_limit = Some 200\<rparr>]))
   \<and> game_queries (advance t s) = game_queries s
   \<and> (\<forall>q \<in> set (game_queries (run evs (mounted t0))).
         \<exists>r t. q = games_query (regionToBounds r) t)
   \<and> (pending s tid' = Some FetchAwaitGames \<longrightarrow>
        games (step (Resolve tid' (GamesResp data None)) s)
          = (case data of None \<Rightarrow> [] | Some rows \<Rightarrow> rows))"
proof -
  have a: "game_queries (step e s) = game_queries s \<or>
    (\<exists>tid r tok. e = Resolve tid (SessionResp (Some tok))
       \<and> pending s tid = Some (FetchAwaitSession r)
       \<and> game_queries (step e s) = game_queries s @
           [\<lparr>q_from = ''games'',
             q_select = ''id,title,starts_at,location_name,lat,lng,max_players,skill_min,skill_max,status'',
             q_count = None, q_head = False,
             q_filters =
               [Eq ''status'' (VText ''active''),
                Gte ''starts_at'' (VTime (now s - 3600 * 1000)),
                Gte ''lat'' (VNumber (minLat (regionToBounds r))),
                Lte ''lat'' (VNumber (maxLat (regionToBounds r))),
                Gte ''lng'' (VNumber (minLng (regionToBounds r))),
                Lte ''lng'' (VNumber (maxLng (regionToBounds r)))],
             q_order = [(''starts_at'', True)], q_limit = Some 200\<rparr>])"
    using step_game_queries [of e s] by (simp add: games_query_explicit)
  have c: "\<forall>q \<in> set (game_queries (run evs (mounted t0))).
         \<exists>r t. q = games_query (regionToBounds r) t"
    using run_game_queries_shape [of "mounted t0" evs] by (simp add: game_queries_mounted)
  have d: "pending s tid' = Some FetchAwaitGames \<longrightarrow>
        games (step (Resolve tid' (GamesResp data None)) s)
          = (case data of None \<Rightarrow> [] | Some rows \<Rightarrow> rows)"
    by (simp add: resolve_def fetchGamesInRegion_done_def)
  show ?thesis using a c d advance_game_queries by blast
qed

theorem session_query_shape_witness:
  "pending locating 2 = Some (FetchAwaitSession (initial_region 40.0 (- 74.0)))
   \<and> game_queries (step (Resolve 2 (SessionResp (Some ''token''))) locating)
       = [\<lparr>q_from = ''games'',
           q_select = ''id,title,starts_at,location_name,lat,lng,max_players,skill_min,skill_max,status'',
           q_count = None, q_head = False,
           q_filters =
             [Eq ''status'' (VText ''active''), Gte ''starts_at'' (VTime (- 3599800)),
              Gte ''lat'' (VNumber 39.97), Lte ''lat'' (VNumber 40.03),
              Gte ''lng'' (VNumber (- 74.03)), Lte ''lng'' (VNumber (- 73.97))],
           q_order = [(''starts_at'', True)], q_limit = Some 200\<rparr>]
   \<and> game_queries (run [(100, Resolve 0 (PermissionResp ''granted'')),
                         (200, Resolve 1 (PositionResp 40.0 (- 74.0))),
                         (300, Resolve 2 (SessionResp (Some ''token'')))] (mounted 0))
       = [games_query (regionToBounds (initial_region 40.0 (- 74.0))) (- 3599700)]
   \<and> pending querying 3 = Some FetchAwaitGames
   \<and> games (step (Resolve 3 (GamesResp (Some [gameB, gameA]) None)) querying) = [gameB, gameA]"
proof -
  have q: "game_queries (run [(100, Resolve 0 (PermissionResp ''granted'')),
                         (200, Resolve 1 (PositionResp 40.0 (- 74.0))),
                         (300, Resolve 2 (SessionResp (Some ''token'')))] (mounted 0))
       = [games_query (regionToBounds (initial_region 40.0 (- 74.0))) (- 3599700)]"
    by (simp add: run_defs game_queries_def q_from_games_query)
  have h: "game_queries (step (Resolve 2 (SessionResp (Some ''token''))) locating) \<noteq> game_queries locating"
    by (simp add: locating_fields resolve_def fetchGamesInRegion_authed_def ensureAuthedOrWarn_def
          await_def game_queries_def q_from_games_query Let_def)
  show ?thesis
    using h q
      session_query_shape [of "Resolve 2 (SessionResp (Some ''token''))" locating 0
        "[(100, Resolve 0 (PermissionResp ''granted'')),
          (200, Resolve 1 (PositionResp 40.0 (- 74.0))),
          (300, Resolve 2 (SessionResp (Some ''token'')))]" 0 3 "Some [gameB, gameA]"]
      session_query_shape [of Idle querying 0 "[]" 0 3 "Some [gameB, gameA]"]
    by (simp add: locating_fields querying_fields regionToBounds_def initial_region_def)
qed

section \<open>Failed queries\<close>

text \<open>
  C5. When the session-list query resolves with an error, the visible list stays as it
  was and an alert titled \<open>Error\<close> carries the error message to the user. When the
  player-count query resolves with an error, the count is null, the count-loading flag
  is off, and no alert is raised.
\<close>

theorem failed_queries_keep_state:
  "(pending s tid = Some FetchAwaitGames \<longrightarrow>
      games (step (Resolve tid (GamesResp data (Some msg))) s) = games s
      \<and> alerts (step (Resolve tid (GamesResp data (Some msg))) s) = alerts s @ [(''Error'', msg)])
   \<and> (pending s tid = Some SelectAwaitCount \<longrightarrow>
      playerCount (step (Resolve tid (CountResp c (Some msg))) s) = None
      \<and> \<not> loadingCount (step (Resolve tid (CountResp c (Some msg))) s)
      \<and> alerts (step (Resolve tid (CountResp c (Some msg))) s) = alerts s)"
  by (simp add: resolve_def fetchGamesInRegion_done_def onSelectGame_done_def
        Alert_alert_def console_log_def)

theorem failed_queries_keep_state_witness:
  "pending settled_again 5 = Some FetchAwaitGames
   \<and> games (step (Resolve 5 (GamesResp None (Some ''timeout''))) settled_again) = [gameA, gameB]
   \<and> alerts (step (Resolve 5 (GamesResp None (Some ''timeout''))) settled_again) = [(''Error'', ''timeout'')]
   \<and> pending inspecting 4 = Some SelectAwaitCount
   \<and> playerCount (step (Resolve 4 (CountResp (Some 3) (Some ''timeout''))) inspecting) = None
   \<and> \<not> loadingCount (step (Resolve 4 (CountResp (Some 3) (Some ''timeout''))) inspecting)
   \<and> alerts (step (Resolve 4 (CountResp (Some 3) (Some ''timeout''))) inspecting) = []"
  using failed_queries_keep_state [of settled_again 5 None "''timeout''" None]
    failed_queries_keep_state [of inspecting 4 None "''timeout''" "Some 3"]
  by (simp add: inspecting_fields settled_again_fields)

section \<open>The authentication gate\<close>

text \<open>
  C6. A fetch starts by asking the auth client for the session. A session-list query
  goes out only in the step that resumes a fetch with a session in hand; timers and all
  other events send none. With no session the fetch ends there: no request at all is
  sent, nothing stays parked, and the user gets the alert \<open>Not logged in\<close>, whose title
  differs from that of the alert for a failed query.
\<close>

theorem auth_gate:
  "requests (fetchGamesInRegion r s) = requests s @ [(next_task s, AuthGetSession)]
   \<and> (game_queries (step e s) \<noteq> game_queries s \<longrightarrow>
        (\<exists>tid' r' tok. e = Resolve tid' (SessionResp (Some tok))
           \<and> pending s tid' = Some (FetchAwaitSession r')))
   \<and> game_queries (advance t s) = game_queries s
   \<and> (pending s tid = Some (FetchAwaitSession r) \<longrightarrow>
        requests (step (Resolve tid (SessionResp None)) s) = requests s
        \<and> pending (step (Resolve tid (SessionResp None)) s) = (pending s)(tid := None)
        \<and> alerts (step (Resolve tid (SessionResp None)) s) = alerts s @
            [(''Not logged in'',
              ''Your database policies currently require login to view games. Add Auth next, or temporarily allow public read for games.'')]
        \<and> (pending s' tid2 = Some FetchAwaitGames \<longrightarrow>
             fst (last (alerts (step (Resolve tid (SessionResp None)) s)))
               \<noteq> fst (last (alerts (step (Resolve tid2 (GamesResp data (Some msg))) s')))))"
proof -
  have b: "game_queries (step e s) \<noteq> game_queries s \<longrightarrow>
        (\<exists>tid' r' tok. e = Resolve tid' (SessionResp (Some tok))
           \<and> pending s tid' = Some (FetchAwaitSession r'))"
    using step_game_queries [of e s] by blast
  show ?thesis using b advance_game_queries [of t s]
    by (simp add: handler_defs)
qed

theorem auth_gate_witness:
  "pending locating 2 = Some (FetchAwaitSession (initial_region 40.0 (- 74.0)))
   \<and> pending querying 3 = Some FetchAwaitGames
   \<and> game_queries (step (Resolve 2 (SessionResp (Some ''token''))) locating)
        \<noteq> game_queries locating
   \<and> requests (step (Resolve 2 (SessionResp None)) locating) = requests locating
   \<and> game_queries (step (Resolve 2 (SessionResp None)) locating) = []
   \<and> pending (step (Resolve 2 (SessionResp None)) locating) 2 = None
   \<and> fst (last (alerts (step (Resolve 2 (SessionResp None)) locating))) = ''Not logged in''
   \<and> fst (last (alerts (step (Resolve 3 (GamesResp None (Some ''timeout''))) querying)))
        = ''Error''"
proof -
  have h: "game_queries (step (Resolve 2 (SessionResp (Some ''token''))) locating)
        \<noteq> game_queries locating"
    by (simp add: locating_fields resolve_def fetchGamesInRegion_authed_def
          ensureAuthedOrWarn_def await_def game_queries_def q_from_games_query Let_def)
  have e: "fst (last (alerts (step (Resolve 3 (GamesResp None (Some ''timeout''))) querying)))
        = ''Error''"
    by (simp add: querying_fields resolve_def fetchGamesInRegion_done_def Alert_alert_def
          console_log_def)
  show ?thesis
    using h e
      auth_gate [of "initial_region 40.0 (- 74.0)" locating
        "Resolve 2 (SessionResp (Some ''token''))" 0 2 querying 3 None "''timeout''"]
      auth_gate [of "initial_region 40.0 (- 74.0)" locating
        "Resolve 2 (SessionResp None)" 0 2 querying 3 None "''timeout''"]
    by (auto simp add: locating_fields querying_fields)
qed

section \<open>Clearing the selection\<close>

text \<open>
  C7. Whenever a step sends a session-list query, the selected game and the player count
  are null afterwards: the query is awaited from a state in which both have already
  been cleared. The later outcome of the query, success or failure, does not touch
  either of them.
\<close>

theorem selection_cleared_before_query:
  "(game_queries (step e s) \<noteq> game_queries s \<longrightarrow>
      selected (step e s) = None \<and> playerCount (step e s) = None)
   \<and> (\<exists>s4. selected s4 = None \<and> playerCount s4 = None
         \<and> fetchGamesInRegion_authed r (Some tok) s
             = await (Select (games_query (regionToBounds r) (now s - 3600 * 1000))) FetchAwaitGames s4)
   \<and> (pending s tid = Some FetchAwaitGames \<longrightarrow>
        selected (step (Resolve tid (GamesResp data err)) s) = selected s
        \<and> playerCount (step (Resolve tid (GamesResp data err)) s) = playerCount s)"
proof -
  have a: "game_queries (step e s) \<noteq> game_queries s \<longrightarrow>
      selected (step e s) = None \<and> playerCount (step e s) = None"
    using step_game_queries [of e s]
    by (auto simp: resolve_def fetchGamesInRegion_authed_def ensureAuthedOrWarn_def await_def Let_def)
  have b: "\<exists>s4. selected s4 = None \<and> playerCount s4 = None
         \<and> fetchGamesInRegion_authed r (Some tok) s
             = await (Select (games_query (regionToBounds r) (now s - 3600 * 1000))) FetchAwaitGames s4"
    by (rule exI [of _ "s\<lparr>loadingGames := True, selected := None, playerCount := None\<rparr>"])
       (simp add: fetchGamesInRegion_authed_def ensureAuthedOrWarn_def Let_def)
  have c: "pending s tid = Some FetchAwaitGames \<longrightarrow>
        selected (step (Resolve tid (GamesResp data err)) s) = selected s
        \<and> playerCount (step (Resolve tid (GamesResp data err)) s) = playerCount s"
    by (cases err) (simp_all add: resolve_def fetchGamesInRegion_done_def Alert_alert_def console_log_def)
  show ?thesis using a b c by blast
qed

theorem selection_cleared_before_query_witness:
  "selected repanning = Some gameA \<and> playerCount repanning = Some 3
   \<and> game_queries (step (Resolve 5 (SessionResp (Some ''token''))) repanning)
        \<noteq> game_queries repanning
   \<and> selected (step (Resolve 5 (SessionResp (Some ''token''))) repanning) = None
   \<and> playerCount (step (Resolve 5 (SessionResp (Some ''token''))) repanning) = None
   \<and> pending settled_again 5 = Some FetchAwaitGames
   \<and> selected (step (Resolve 5 (GamesResp None (Some ''timeout''))) settled_again) = None
   \<and> playerCount (step (Resolve 5 (GamesResp (Some [gameB]) None)) settled_again) = None"
proof -
  have h: "game_queries (step (Resolve 5 (SessionResp (Some ''token''))) repanning)
        \<noteq> game_queries repanning"
    by (simp add: repanning_fields resolve_def fetchGamesInRegion_authed_def
          ensureAuthedOrWarn_def await_def game_queries_def q_from_games_query Let_def)
  show ?thesis
    using h
      selection_cleared_before_query
        [of "Resolve 5 (SessionResp (Some ''token''))" repanning
            "initial_region 40.01 (- 74.0)" "''token''" 5 None None]
      selection_cleared_before_query
        [of Idle settled_again "initial_region 40.01 (- 74.0)" "''token''" 5 None "Some ''timeout''"]
      selection_cleared_before_query
        [of Idle settled_again "initial_region 40.01 (- 74.0)" "''token''" 5 "Some [gameB]" None]
    by (simp add: repanning_fields settled_again_fields)
qed

section \<open>A failed auth check changes nothing\<close>

text \<open>
  C9. \<open>fetchGamesInRegion\<close> writes no state cell before the auth check, and when the
  check finds no session it returns at once: the visible list, the selected game, the
  player count and the loading-games flag are what they were, after each of the two
  stretches and so after the call as a whole. The state after the failed check is the
  one before it but for the finished continuation and the alert.
\<close>

theorem auth_failure_mutates_nothing:
  "games (fetchGamesInRegion r s) = games s
   \<and> selected (fetchGamesInRegion r s) = selected s
   \<and> playerCount (fetchGamesInRegion r s) = playerCount s
   \<and> loadingGames (fetchGamesInRegion r s) = loadingGames s
   \<and> (pending s tid = Some (FetchAwaitSession r) \<longrightarrow>
        step (Resolve tid (SessionResp None)) s
          = s\<lparr>pending := (pending s)(tid := None),
              alerts := alerts s @
                [(''Not logged in'',
                  ''Your database policies currently require login to view games. Add Auth next, or temporarily allow public read for games.'')]\<rparr>
        \<and> games (step (Resolve tid (SessionResp None)) s) = games s
        \<and> selected (step (Resolve tid (SessionResp None)) s) = selected s
        \<and> playerCount (step (Resolve tid (SessionResp None)) s) = playerCount s
        \<and> loadingGames (step (Resolve tid (SessionResp None)) s) = loadingGames s)
   \<and> games (step (Resolve (next_task s) (SessionResp None)) (fetchGamesInRegion r s)) = games s
   \<and> selected (step (Resolve (next_task s) (SessionResp None)) (fetchGamesInRegion r s))
       = selected s
   \<and> playerCount (step (Resolve (next_task s) (SessionResp None)) (fetchGamesInRegion r s))
       = playerCount s
   \<and> loadingGames (step (Resolve (next_task s) (SessionResp None)) (fetchGamesInRegion r s))
       = loadingGames s"
proof -
  let ?s1 = "fetchGamesInRegion r s"
  have start: "games ?s1 = games s" "selected ?s1 = selected s"
    "playerCount ?s1 = playerCount s" "loadingGames ?s1 = loadingGames s"
    "pending ?s1 (next_task s) = Some (FetchAwaitSession r)"
    by (simp_all add: fetchGamesInRegion_def await_def)
  have fail: "step (Resolve i (SessionResp None)) u
          = u\<lparr>pending := (pending u)(i := None),
              alerts := alerts u @
                [(''Not logged in'',
                  ''Your database policies currently require login to view games. Add Auth next, or temporarily allow public read for games.'')]\<rparr>"
    if "pending u i = Some (FetchAwaitSession r)" for u i
    using that
    by (simp add: resolve_def fetchGamesInRegion_authed_def ensureAuthedOrWarn_def Alert_alert_def)
  have whole: "games (step (Resolve (next_task s) (SessionResp None)) ?s1) = games s"
    "selected (step (Resolve (next_task s) (SessionResp None)) ?s1) = selected s"
    "playerCount (step (Resolve (next_task s) (SessionResp None)) ?s1) = playerCount s"
    "loadingGames (step (Resolve (next_task s) (SessionResp None)) ?s1) = loadingGames s"
    unfolding fail [OF start(5)] using start(1-4) by simp_all
  have part: "pending s tid = Some (FetchAwaitSession r) \<longrightarrow>
        step (Resolve tid (SessionResp None)) s
          = s\<lparr>pending := (pending s)(tid := None),
              alerts := alerts s @
                [(''Not logged in'',
                  ''Your database policies currently require login to view games. Add Auth next, or temporarily allow public read for games.'')]\<rparr>
        \<and> games (step (Resolve tid (SessionResp None)) s) = games s
        \<and> selected (step (Resolve tid (SessionResp None)) s) = selected s
        \<and> playerCount (step (Resolve tid (SessionResp None)) s) = playerCount s
        \<and> loadingGames (step (Resolve tid (SessionResp None)) s) = loadingGames s"
    using fail [of s tid] by simp
  show ?thesis using start(1-4) part whole by blast
qed

theorem auth_failure_mutates_nothing_witness:
  "pending repanning 5 = Some (FetchAwaitSession (initial_region 40.01 (- 74.0)))
   \<and> games (step (Resolve 5 (SessionResp None)) repanning) = [gameA, gameB]
   \<and> selected (step (Resolve 5 (SessionResp None)) repanning) = Some gameA
   \<and> playerCount (step (Resolve 5 (SessionResp None)) repanning) = Some 3
   \<and> loadingGames (step (Resolve 5 (SessionResp None)) repanning) = False"
  using auth_failure_mutates_nothing [of "initial_region 40.01 (- 74.0)" repanning 5]
  by (simp add: repanning_fields)

section \<open>The player count\<close>

text \<open>
  C10. When the count query resolves without an error, the stored player count is the
  count returned, or 0 when the count returned is null, so it is never null; and the
  count-loading flag is off after the query has resolved, with or without an error.
\<close>

theorem count_coerced_and_loading_cleared:
  assumes "pending s tid = Some SelectAwaitCount"
  shows "playerCount (step (Resolve tid (CountResp count None)) s)
           = Some (case count of None \<Rightarrow> 0 | Some c \<Rightarrow> c)
    \<and> playerCount (step (Resolve tid (CountResp count None)) s) \<noteq> None
    \<and> playerCount (step (Resolve tid (CountResp None None)) s) = Some 0
    \<and> \<not> loadingCount (step (Resolve tid (CountResp count err)) s)"
  using assms
  by (cases err; cases count) (simp_all add: resolve_def onSelectGame_done_def console_log_def)

theorem count_coerced_and_loading_cleared_witness:
  "pending inspecting 4 = Some SelectAwaitCount
   \<and> playerCount (step (Resolve 4 (CountResp None None)) inspecting) = Some 0
   \<and> playerCount (step (Resolve 4 (CountResp (Some 3) None)) inspecting) = Some 3
   \<and> \<not> loadingCount (step (Resolve 4 (CountResp (Some 3) (Some ''timeout''))) inspecting)"
  using count_coerced_and_loading_cleared [of inspecting 4 None "Some ''timeout''"]
    count_coerced_and_loading_cleared [of inspecting 4 "Some 3" "Some ''timeout''"]
  by (simp add: inspecting_fields)

section \<open>Two selections in a row\<close>

text \<open>
  C3 says that a count result for a game that is no longer the selected one is discarded.
  \<open>onSelectGame\<close> has no such check: after the await it stores the count it got. In the
  run below game A is pressed, then game B; B's count (5) arrives, then A's count (3).
  Request 4 is the count request for A and request 5 the one for B, and at the end the card
  shows game B with the count 3 and no loading mark.
\<close>

theorem stale_count_shown_counterexample:
  "(4, Select (count_query (id' gameA))) \<in> set (requests (run stale_count_trace settled))
   \<and> (5, Select (count_query (id' gameB))) \<in> set (requests (run stale_count_trace settled))
   \<and> id' gameA \<noteq> id' gameB
   \<and> selected (run stale_count_trace settled) = Some gameB
   \<and> playerCount (run stale_count_trace settled) = Some 3
   \<and> playerCount (run stale_count_trace settled) \<noteq> Some 5
   \<and> \<not> loadingCount (run stale_count_trace settled)"
  by (simp add: stale_count_trace_def trace_defs run_defs gameA_def gameB_def)

text \<open>
  C3, amended. After A and then B have been pressed, the card shows B, with no count and
  the loading mark, and two count requests are out, for A and for B. The selected game
  stays B whatever arrives. Every count that arrives is stored, whichever game it was
  asked for: the first arrival also takes the loading mark away, and the count shown in
  the end is that of the request answered last, B's if B's answer comes last and A's if
  A's answer comes last.
\<close>

theorem last_count_wins:
  assumes "map_rendered s" and "a \<in> set (games s)" and "b \<in> set (games s)"
  shows "selected (step (MarkerPress b) (step (MarkerPress a) s)) = Some b
    \<and> playerCount (step (MarkerPress b) (step (MarkerPress a) s)) = None
    \<and> loadingCount (step (MarkerPress b) (step (MarkerPress a) s))
    \<and> requests (step (MarkerPress b) (step (MarkerPress a) s))
        = requests s @ [(next_task s, Select (count_query (id' a))),
                        (Suc (next_task s), Select (count_query (id' b)))]
    \<and> selected (step (Resolve (next_task s) (CountResp ca None))
         (step (MarkerPress b) (step (MarkerPress a) s))) = Some b
    \<and> playerCount (step (Resolve (next_task s) (CountResp ca None))
         (step (MarkerPress b) (step (MarkerPress a) s)))
        = Some (case ca of None \<Rightarrow> 0 | Some n \<Rightarrow> n)
    \<and> \<not> loadingCount (step (Resolve (next_task s) (CountResp ca None))
         (step (MarkerPress b) (step (MarkerPress a) s)))
    \<and> selected (step (Resolve (Suc (next_task s)) (CountResp cb None))
         (step (Resolve (next_task s) (CountResp ca None))
         (step (MarkerPress b) (step (MarkerPress a) s)))) = Some b
    \<and> playerCount (step (Resolve (Suc (next_task s)) (CountResp cb None))
         (step (Resolve (next_task s) (CountResp ca None))
         (step (MarkerPress b) (step (MarkerPress a) s))))
        = Some (case cb of None \<Rightarrow> 0 | Some n \<Rightarrow> n)
    \<and> selected (step (Resolve (next_task s) (CountResp ca None))
         (step (Resolve (Suc (next_task s)) (CountResp cb None))
         (step (MarkerPress b) (step (MarkerPress a) s)))) = Some b
    \<and> playerCount (step (Resolve (next_task s) (CountResp ca None))
         (step (Resolve (Suc (next_task s)) (CountResp cb None))
         (step (MarkerPress b) (step (MarkerPress a) s))))
        = Some (case ca of None \<Rightarrow> 0 | Some n \<Rightarrow> n)"
  using assms
  by (simp add: map_rendered_def onSelectGame_def onSelectGame_done_def await_def resolve_def Let_def)

theorem last_count_wins_witness:
  "map_rendered settled \<and> gameA \<in> set (games settled) \<and> gameB \<in> set (games settled)
   \<and> selected (step (Resolve 4 (CountResp (Some 3) None))
         (step (Resolve 5 (CountResp (Some 5) None))
         (step (MarkerPress gameB) (step (MarkerPress gameA) settled)))) = Some gameB
   \<and> playerCount (step (Resolve 4 (CountResp (Some 3) None))
         (step (Resolve 5 (CountResp (Some 5) None))
         (step (MarkerPress gameB) (step (MarkerPress gameA) settled)))) = Some 3
   \<and> playerCount (step (Resolve 5 (CountResp (Some 5) None))
         (step (Resolve 4 (CountResp (Some 3) None))
         (step (MarkerPress gameB) (step (MarkerPress gameA) settled)))) = Some 5"
  using last_count_wins [of settled gameA gameB "Some 3" "Some 5"]
  by (simp add: settled_fields)

section \<open>The debounce timer\<close>

text \<open>
  C1 says that a burst of viewport changes, each less than 450 ms after the one before,
  always ends in exactly one session-list query. The timer callback calls
  \<open>fetchGamesInRegion\<close>, which sends the query only behind the auth check. In the run below
  nobody is logged in: two viewport changes 100 ms apart arm and re-arm the timer, the
  timer runs at 1550 and the auth check (request 3) finds no session. No session-list
  query has been sent, and nothing is armed or parked any more.
\<close>

theorem unauthenticated_pan_counterexample:
  "game_queries (run unauthenticated_pan (mounted 0)) = []
   \<and> requests (run unauthenticated_pan (mounted 0))
       = [(0, RequestForegroundPermissions), (1, GetCurrentPosition),
          (2, AuthGetSession), (3, AuthGetSession)]
   \<and> timers (run unauthenticated_pan (mounted 0)) = []
   \<and> pending (run unauthenticated_pan (mounted 0)) 3 = None
   \<and> now (run unauthenticated_pan (mounted 0)) = 5000"
  by (simp add: unauthenticated_pan_def run_defs game_queries_def)

text \<open>
  C1, amended. Take a rendered map with at most one armed timer, none due by the first
  event, and a burst of viewport changes each less than 450 ms after the one before.
  The burst itself sends nothing and leaves one timer armed, due 450 ms after the last
  event and holding the last event's region. Until then nothing is sent. Once it is
  due, exactly one fetch starts: one auth check goes out, parked with the last event's
  region. That fetch sends exactly one session-list query, with the last event's bounds,
  when the auth check finds a session, and none when it finds no session. Arming a
  timer leaves the new timer as the only one armed, and from a mounted screen at most
  one timer is armed after any events.
\<close>

theorem debounce_single_fetch:
  assumes "map_rendered s" and "timer_inv s" and "now s \<le> t1"
    and "\<forall>tm \<in> set (timers s). t1 < fst (snd tm)"
    and "within_debounce t1 vs"
    and "last ((t1, r1) # vs) = (tN, rN)"
  shows "requests (run (settle_events ((t1, r1) # vs)) s) = requests s
    \<and> (\<exists>h. timers (run (settle_events ((t1, r1) # vs)) s) = [(h, tN + 450, rN)])
    \<and> (T < tN + 450 \<longrightarrow>
         requests (run (settle_events ((t1, r1) # vs) @ [(T, Idle)]) s) = requests s)
    \<and> (tN + 450 \<le> T \<longrightarrow>
         requests (run (settle_events ((t1, r1) # vs) @ [(T, Idle)]) s)
           = requests s @ [(next_task s, AuthGetSession)]
         \<and> pending (run (settle_events ((t1, r1) # vs) @ [(T, Idle)]) s) (next_task s)
             = Some (FetchAwaitSession rN)
         \<and> timers (run (settle_events ((t1, r1) # vs) @ [(T, Idle)]) s) = []
         \<and> game_queries (run (settle_events ((t1, r1) # vs)
               @ [(T, Resolve (next_task s) (SessionResp (Some tok)))]) s)
             = game_queries s @ [games_query (regionToBounds rN) (T - 3600 * 1000)]
         \<and> game_queries (run (settle_events ((t1, r1) # vs)
               @ [(T, Resolve (next_task s) (SessionResp None))]) s)
             = game_queries s)
    \<and> timers (scheduleFetch r s) = [(next_timer s, now s + 450, r)]
    \<and> length (timers (run evs s)) \<le> 1
    \<and> length (timers (run evs (mounted t0))) \<le> 1"
proof -
  let ?s1 = "run (settle_events ((t1, r1) # vs)) s"
  obtain h where tm: "timers ?s1 = [(h, tN + 450, rN)]"
    using burst [OF assms(1-5), of r1] assms(6) by auto
  have fr: "now ?s1 = tN" "requests ?s1 = requests s" "pending ?s1 = pending s"
    "next_task ?s1 = next_task s"
    using burst [OF assms(1-5), of r1] assms(6) by simp_all
  have gq: "game_queries ?s1 = game_queries s" using fr(2) by (simp add: game_queries_def)
  have quiet: "T < tN + 450 \<longrightarrow> requests (run (settle_events ((t1, r1) # vs) @ [(T, Idle)]) s) = requests s"
    using quiet_after_burst [OF tm, of T] fr(2) by (simp add: run_append)
  have fired: "tN + 450 \<le> T \<longrightarrow>
         requests (run (settle_events ((t1, r1) # vs) @ [(T, Idle)]) s)
           = requests s @ [(next_task s, AuthGetSession)]
         \<and> pending (run (settle_events ((t1, r1) # vs) @ [(T, Idle)]) s) (next_task s)
             = Some (FetchAwaitSession rN)
         \<and> timers (run (settle_events ((t1, r1) # vs) @ [(T, Idle)]) s) = []
         \<and> game_queries (run (settle_events ((t1, r1) # vs)
               @ [(T, Resolve (next_task s) (SessionResp (Some tok)))]) s)
             = game_queries s @ [games_query (regionToBounds rN) (T - 3600 * 1000)]
         \<and> game_queries (run (settle_events ((t1, r1) # vs)
               @ [(T, Resolve (next_task s) (SessionResp None))]) s)
             = game_queries s"
  proof
    assume T: "tN + 450 \<le> T"
    have le: "now ?s1 \<le> tN + 450" using fr(1) by simp
    note f = fire_after_burst [OF tm le T]
    have p: "pending (advance T ?s1) (next_task s) = Some (FetchAwaitSession rN)"
      using f fr(4) by simp
    show "requests (run (settle_events ((t1, r1) # vs) @ [(T, Idle)]) s)
           = requests s @ [(next_task s, AuthGetSession)]
         \<and> pending (run (settle_events ((t1, r1) # vs) @ [(T, Idle)]) s) (next_task s)
             = Some (FetchAwaitSession rN)
         \<and> timers (run (settle_events ((t1, r1) # vs) @ [(T, Idle)]) s) = []
         \<and> game_queries (run (settle_events ((t1, r1) # vs)
               @ [(T, Resolve (next_task s) (SessionResp (Some tok)))]) s)
             = game_queries s @ [games_query (regionToBounds rN) (T - 3600 * 1000)]
         \<and> game_queries (run (settle_events ((t1, r1) # vs)
               @ [(T, Resolve (next_task s) (SessionResp None))]) s)
             = game_queries s"
      using f p fr(2,4) gq session_resume_queries [OF p, of tok]
      by (simp add: run_append)
  qed
  have one: "length (timers (run evs s)) \<le> 1"
    using timer_inv_length [OF timer_inv_run [OF assms(2)]] .
  have mounted_one: "length (timers (run evs (mounted t0))) \<le> 1"
    using timer_inv_length [OF timer_inv_run [OF timer_inv_mounted]] .
  show ?thesis
    using fr(2) tm quiet fired scheduleFetch_timers [OF assms(2), of r] one mounted_one
    by blast
qed

theorem debounce_single_fetch_witness:
  "map_rendered settled \<and> timer_inv settled \<and> now settled \<le> 1000
   \<and> within_debounce 1000 pan_tail
   \<and> last ((1000, initial_region 40.01 (- 74.0)) # pan_tail)
       = (1400, initial_region 40.03 (- 74.01))
   \<and> requests (run (settle_events ((1000, initial_region 40.01 (- 74.0)) # pan_tail)
         @ [(1849, Idle)]) settled) = requests settled
   \<and> requests (run (settle_events ((1000, initial_region 40.01 (- 74.0)) # pan_tail)
         @ [(1850, Idle)]) settled)
       = requests settled @ [(4, AuthGetSession)]
   \<and> game_queries (run (settle_events ((1000, initial_region 40.01 (- 74.0)) # pan_tail)
         @ [(1850, Resolve 4 (SessionResp (Some ''token'')))]) settled)
       = game_queries settled
         @ [games_query (regionToBounds (initial_region 40.03 (- 74.01))) (1850 - 3600 * 1000)]"
proof -
  have h: "map_rendered settled" "timer_inv settled" "now settled \<le> 1000"
    "\<forall>tm \<in> set (timers settled). 1000 < fst (snd tm)"
    "within_debounce 1000 pan_tail"
    "last ((1000, initial_region 40.01 (- 74.0)) # pan_tail) = (1400, initial_region 40.03 (- 74.01))"
    by (simp_all add: settled_fields settled_timer_fields timer_inv_def pan_tail_def)
  show ?thesis
    using h debounce_single_fetch [OF h, of 1849 "''token''" "initial_region 40.0 (- 74.0)" "[]" 0]
      debounce_single_fetch [OF h, of 1850 "''token''" "initial_region 40.0 (- 74.0)" "[]" 0]
    by (simp add: settled_fields)
qed

section \<open>Startup\<close>

text \<open>
  C8 says that once the location has resolved a query is issued immediately. The mount
  effect calls \<open>fetchGamesInRegion\<close> at once, without the timer, but the query stays behind
  the auth check. In the run below the permission is granted and the position resolves,
  and the auth check finds no session: the region is set, the \<open>Not logged in\<close> alert is
  up, no session-list query has been sent, and nothing is parked or armed.
\<close>

theorem unauthenticated_startup_counterexample:
  "region (run unauthenticated_startup (mounted 0)) = Some (initial_region 40.0 (- 74.0))
   \<and> game_queries (run unauthenticated_startup (mounted 0)) = []
   \<and> requests (run unauthenticated_startup (mounted 0))
       = [(0, RequestForegroundPermissions), (1, GetCurrentPosition), (2, AuthGetSession)]
   \<and> pending (run unauthenticated_startup (mounted 0)) 2 = None
   \<and> timers (run unauthenticated_startup (mounted 0)) = []
   \<and> alerts (run unauthenticated_startup (mounted 0))
       = [(''Not logged in'',
           ''Your database policies currently require login to view games. Add Auth next, or temporarily allow public read for games.'')]"
  by (simp add: unauthenticated_startup_def run_defs game_queries_def)

text \<open>
  C8, amended. If the permission is not granted, the screen raises the
  \<open>Location needed\<close> alert and stops: whatever happens afterwards, the permission request
  stays the only request ever sent (no query, no retry), no region is set, so the map is
  never rendered, and nothing is parked or armed. If the permission is granted and the
  position resolves, the region becomes the device position with spans 0.06 and 0.06 and
  the fetch for it starts at once, with no timer armed: the auth check goes out in the
  same step. The session-list query for that region follows as soon as the auth check
  has found a session, still without any timer having been armed; when it finds none,
  no query is sent.
\<close>

theorem startup:
  "(st \<noteq> ''granted'' \<longrightarrow>
      requests (run ((t, Resolve 0 (PermissionResp st)) # evs) (mounted t0))
        = [(0, RequestForegroundPermissions)]
      \<and> game_queries (run ((t, Resolve 0 (PermissionResp st)) # evs) (mounted t0)) = []
      \<and> alerts (run ((t, Resolve 0 (PermissionResp st)) # evs) (mounted t0))
        = [(''Location needed'', ''Enable location permission to find games near you.'')]
      \<and> region (run ((t, Resolve 0 (PermissionResp st)) # evs) (mounted t0)) = None
      \<and> \<not> loadingLocation (run ((t, Resolve 0 (PermissionResp st)) # evs) (mounted t0))
      \<and> games (run ((t, Resolve 0 (PermissionResp st)) # evs) (mounted t0)) = []
      \<and> timers (run ((t, Resolve 0 (PermissionResp st)) # evs) (mounted t0)) = []
      \<and> pending (run ((t, Resolve 0 (PermissionResp st)) # evs) (mounted t0)) = Map.empty)
   \<and> region (run [(t1, Resolve 0 (PermissionResp ''granted'')),
                   (t2, Resolve 1 (PositionResp la lo))] (mounted t0))
       = Some \<lparr>latitude = la, longitude = lo, latitudeDelta = 0.06, longitudeDelta = 0.06\<rparr>
   \<and> \<not> loadingLocation (run [(t1, Resolve 0 (PermissionResp ''granted'')),
                   (t2, Resolve 1 (PositionResp la lo))] (mounted t0))
   \<and> requests (run [(t1, Resolve 0 (PermissionResp ''granted'')),
                   (t2, Resolve 1 (PositionResp la lo))] (mounted t0))
       = [(0, RequestForegroundPermissions), (1, GetCurrentPosition), (2, AuthGetSession)]
   \<and> pending (run [(t1, Resolve 0 (PermissionResp ''granted'')),
                   (t2, Resolve 1 (PositionResp la lo))] (mounted t0)) 2
       = Some (FetchAwaitSession
           \<lparr>latitude = la, longitude = lo, latitudeDelta = 0.06, longitudeDelta = 0.06\<rparr>)
   \<and> timers (run [(t1, Resolve 0 (PermissionResp ''granted'')),
                   (t2, Resolve 1 (PositionResp la lo))] (mounted t0)) = []
   \<and> fetchTimer (run [(t1, Resolve 0 (PermissionResp ''granted'')),
                   (t2, Resolve 1 (PositionResp la lo))] (mounted t0)) = None
   \<and> game_queries (run [(t1, Resolve 0 (PermissionResp ''granted'')),
                   (t2, Resolve 1 (PositionResp la lo)),
                   (t3, Resolve 2 (SessionResp (Some tok)))] (mounted t0))
       = [games_query
            (regionToBounds
               \<lparr>latitude = la, longitude = lo, latitudeDelta = 0.06, longitudeDelta = 0.06\<rparr>)
            (max (max (max t0 t1) t2) t3 - 3600 * 1000)]
   \<and> next_timer (run [(t1, Resolve 0 (PermissionResp ''granted'')),
                   (t2, Resolve 1 (PositionResp la lo)),
                   (t3, Resolve 2 (SessionResp (Some tok)))] (mounted t0)) = 1
   \<and> game_queries (run [(t1, Resolve 0 (PermissionResp ''granted'')),
                   (t2, Resolve 1 (PositionResp la lo)),
                   (t3, Resolve 2 (SessionResp None))] (mounted t0)) = []"
proof -
  have denied: "st \<noteq> ''granted'' \<longrightarrow>
      requests (run ((t, Resolve 0 (PermissionResp st)) # evs) (mounted t0))
        = [(0, RequestForegroundPermissions)]
      \<and> game_queries (run ((t, Resolve 0 (PermissionResp st)) # evs) (mounted t0)) = []
      \<and> alerts (run ((t, Resolve 0 (PermissionResp st)) # evs) (mounted t0))
        = [(''Location needed'', ''Enable location permission to find games near you.'')]
      \<and> region (run ((t, Resolve 0 (PermissionResp st)) # evs) (mounted t0)) = None
      \<and> \<not> loadingLocation (run ((t, Resolve 0 (PermissionResp st)) # evs) (mounted t0))
      \<and> games (run ((t, Resolve 0 (PermissionResp st)) # evs) (mounted t0)) = []
      \<and> timers (run ((t, Resolve 0 (PermissionResp st)) # evs) (mounted t0)) = []
      \<and> pending (run ((t, Resolve 0 (PermissionResp st)) # evs) (mounted t0)) = Map.empty"
  proof
    assume st: "st \<noteq> ''granted''"
    let ?d = "step (Resolve 0 (PermissionResp st)) (advance t (mounted t0))"
    obtain n where n: "run evs ?d = ?d\<lparr>now := n\<rparr>"
      using halted_run [OF denied_halted(1) [OF st]] by blast
    have r: "run ((t, Resolve 0 (PermissionResp st)) # evs) (mounted t0) = ?d\<lparr>now := n\<rparr>"
      using n by simp
    show "requests (run ((t, Resolve 0 (PermissionResp st)) # evs) (mounted t0))
        = [(0, RequestForegroundPermissions)]
      \<and> game_queries (run ((t, Resolve 0 (PermissionResp st)) # evs) (mounted t0)) = []
      \<and> alerts (run ((t, Resolve 0 (PermissionResp st)) # evs) (mounted t0))
        = [(''Location needed'', ''Enable location permission to find games near you.'')]
      \<and> region (run ((t, Resolve 0 (PermissionResp st)) # evs) (mounted t0)) = None
      \<and> \<not> loadingLocation (run ((t, Resolve 0 (PermissionResp st)) # evs) (mounted t0))
      \<and> games (run ((t, Resolve 0 (PermissionResp st)) # evs) (mounted t0)) = []
      \<and> timers (run ((t, Resolve 0 (PermissionResp st)) # evs) (mounted t0)) = []
      \<and> pending (run ((t, Resolve 0 (PermissionResp st)) # evs) (mounted t0)) = Map.empty"
      unfolding r using denied_halted [OF st, of t t0]
      by (simp add: halted_def game_queries_def)
  qed
  have granted: "region (run [(t1, Resolve 0 (PermissionResp ''granted'')),
                   (t2, Resolve 1 (PositionResp la lo))] (mounted t0))
       = Some \<lparr>latitude = la, longitude = lo, latitudeDelta = 0.06, longitudeDelta = 0.06\<rparr>
   \<and> \<not> loadingLocation (run [(t1, Resolve 0 (PermissionResp ''granted'')),
                   (t2, Resolve 1 (PositionResp la lo))] (mounted t0))
   \<and> requests (run [(t1, Resolve 0 (PermissionResp ''granted'')),
                   (t2, Resolve 1 (PositionResp la lo))] (mounted t0))
       = [(0, RequestForegroundPermissions), (1, GetCurrentPosition), (2, AuthGetSession)]
   \<and> pending (run [(t1, Resolve 0 (PermissionResp ''granted'')),
                   (t2, Resolve 1 (PositionResp la lo))] (mounted t0)) 2
       = Some (FetchAwaitSession
           \<lparr>latitude = la, longitude = lo, latitudeDelta = 0.06, longitudeDelta = 0.06\<rparr>)
   \<and> timers (run [(t1, Resolve 0 (PermissionResp ''granted'')),
                   (t2, Resolve 1 (PositionResp la lo))] (mounted t0)) = []
   \<and> fetchTimer (run [(t1, Resolve 0 (PermissionResp ''granted'')),
                   (t2, Resolve 1 (PositionResp la lo))] (mounted t0)) = None"
    by (simp add: run_defs)
  have authed: "game_queries (run [(t1, Resolve 0 (PermissionResp ''granted'')),
                   (t2, Resolve 1 (PositionResp la lo)),
                   (t3, Resolve 2 (SessionResp (Some tok)))] (mounted t0))
       = [games_query
            (regionToBounds
               \<lparr>latitude = la, longitude = lo, latitudeDelta = 0.06, longitudeDelta = 0.06\<rparr>)
            (max (max (max t0 t1) t2) t3 - 3600 * 1000)]
   \<and> next_timer (run [(t1, Resolve 0 (PermissionResp ''granted'')),
                   (t2, Resolve 1 (PositionResp la lo)),
                   (t3, Resolve 2 (SessionResp (Some tok)))] (mounted t0)) = 1"
    by (simp add: run_defs game_queries_def q_from_games_query)
  have unauthed: "game_queries (run [(t1, Resolve 0 (PermissionResp ''granted'')),
                   (t2, Resolve 1 (PositionResp la lo)),
                   (t3, Resolve 2 (SessionResp None))] (mounted t0)) = []"
    by (simp add: run_defs game_queries_def)
  show ?thesis using denied granted authed unauthed by blast
qed

theorem startup_witness:
  "''denied'' \<noteq> ''granted''
   \<and> requests (run [(100, Resolve 0 (PermissionResp ''denied'')),
                     (200, RegionChangeComplete (initial_region 40.0 (- 74.0))),
                     (900, Resolve 0 (PermissionResp ''granted''))] (mounted 0))
       = [(0, RequestForegroundPermissions)]
   \<and> region (run [(100, Resolve 0 (PermissionResp ''denied'')),
                     (200, RegionChangeComplete (initial_region 40.0 (- 74.0))),
                     (900, Resolve 0 (PermissionResp ''granted''))] (mounted 0)) = None"
  using startup [of "''denied''" 100
      "[(200, RegionChangeComplete (initial_region 40.0 (- 74.0))),
        (900, Resolve 0 (PermissionResp ''granted''))]" 0 0 0 0 0 0 "''t''"]
  by simp

end
